theory Spec2Isabelle
  imports Main "HOL-Library.AList"
begin

section \<open>The debug mode of Mu: data model\<close>

text \<open>
  This theory embeds \<^verbatim>\<open>src/mu/modes/debugger.py\<close> (class \<^verbatim>\<open>DebugMode\<close>).
  The methods of \<^verbatim>\<open>DebugMode\<close> mutate three objects: the mode itself
  (\<^verbatim>\<open>self.runner\<close>, \<^verbatim>\<open>self.debugger\<close>), the view (\<^verbatim>\<open>self.view\<close>, with its
  editor tabs and button bar) and the editor (\<^verbatim>\<open>self.editor\<close>). The model passes
  one record holding the fields of all three; a method takes the record and
  returns it updated. Line numbers are Python integers, hence \<open>int\<close>.
\<close>

text \<open>The exceptions that the modelled methods can raise.\<close>

datatype error = AttributeError | KeyError

text \<open>
  Modelled from the spec: the class \<^verbatim>\<open>Breakpoint\<close> of \<^verbatim>\<open>mu.debugger.client\<close> is not
  part of the source file. The source reads \<^verbatim>\<open>breakpoint.line\<close> and
  \<^verbatim>\<open>breakpoint.enabled\<close>; the spec (section 3) gives the record the fields
  \<^verbatim>\<open>file_path\<close>, \<^verbatim>\<open>line\<close> (1-based), \<^verbatim>\<open>enabled\<close> and \<^verbatim>\<open>ignore_count\<close>.
\<close>

record breakpoint =
  file_path :: "string option"
  line :: int
  enabled :: bool
  ignore_count :: nat

text \<open>
  Modelled from the spec: the requests of the link to the debuggee (spec section
  4.2). The class \<^verbatim>\<open>Debugger\<close> of \<^verbatim>\<open>mu.debugger.client\<close> is not part of the source
  file; by section 5 of the spec every request is fire-and-forget, its completion
  being observed later through an event. A request is therefore modelled by
  its entry in the list of requests sent so far.
\<close>

datatype request =
    Create_breakpoint "string option" int
  | Enable_breakpoint breakpoint
  | Disable_breakpoint breakpoint
  | Run

text \<open>
  A Python \<^verbatim>\<open>dict\<close> is modelled by an association list in the order of
  \<^verbatim>\<open>items()\<close>; subscripting and \<^verbatim>\<open>get\<close> are \<open>map_of\<close>. The keys of a
  \<^verbatim>\<open>dict\<close> are distinct, which theorems assume where they depend on it.

  The attribute \<^verbatim>\<open>bp_index\<close> maps a file to the dictionary from 1-based lines to
  breakpoints. The source tests \<^verbatim>\<open>hasattr(self.debugger, 'bp_index')\<close>, so the
  attribute may be missing: \<open>None\<close>.
\<close>

record debugger =
  bp_index :: "(string option \<times> (int \<times> breakpoint) list) list option"
  sent :: "request list"

text \<open>
  Modelled from the spec: an editor tab (a QScintilla widget, not part of the
  source file). Following the contract of the UI sink (spec section 6:
  \<^verbatim>\<open>set_marker\<close>, \<^verbatim>\<open>clear_marker\<close>, \<^verbatim>\<open>clear_all_markers\<close>, \<^verbatim>\<open>move_selection\<close>), the
  breakpoint marker is shown or not shown at a 0-based line, and the selection
  is the quadruple last passed to \<^verbatim>\<open>setSelection\<close>. The attribute
  \<^verbatim>\<open>breakpoint_lines\<close> is a Python \<^verbatim>\<open>set\<close>, represented by a list of its elements
  without repetition. A loop over the set is modelled by the loop over the
  list; the order in which Python iterates a set is not the order of insertion
  in general, and no statement below depends on the order of the list.
\<close>

record tab =
  path :: "string option"
  markers :: "int set"
  breakpoint_lines :: "int list"
  selection :: "int \<times> int \<times> int \<times> int"

text \<open>
  The state: \<^verbatim>\<open>self.runner\<close> (a process, named by a number) and
  \<^verbatim>\<open>self.debugger\<close>; of the view the tabs (\<^verbatim>\<open>widgets\<close>), the selected tab
  (\<^verbatim>\<open>current_tab\<close>, a position in \<^verbatim>\<open>widgets\<close> or \<^verbatim>\<open>None\<close>), the enabled flag of
  each button (\<^verbatim>\<open>button_bar.slots\<close>, a \<^verbatim>\<open>dict\<close> by action name), whether the
  runner pane and the inspector are present and the read-only flag; of the
  editor the status message, the mode last passed to \<^verbatim>\<open>change_mode\<close> and the
  attribute \<^verbatim>\<open>mode\<close>. The list \<open>killed\<close> records the processes that were killed
  and waited for.
\<close>

record state =
  runner :: "nat option"
  debugger :: "debugger option"
  widgets :: "tab list"
  current_tab :: "nat option"
  slots :: "(string \<times> bool) list"
  python_runner :: bool
  debug_inspector :: bool
  read_only :: bool
  status_message :: string
  changed_mode :: string
  mode :: string
  killed :: "nat list"

text \<open>
  The outcome of a method that can raise: \<open>Inr\<close> the state on return,
  \<open>Inl\<close> the exception together with the state at the moment it is raised.
\<close>

type_synonym outcome = "(error \<times> state) + state"

section \<open>The collaborators\<close>

text \<open>
  A tab is referred to by its position in \<^verbatim>\<open>widgets\<close>; a position outside the
  list refers to no tab, which is Python's \<^verbatim>\<open>None\<close>.
\<close>

definition lookup_tab :: "state \<Rightarrow> nat \<Rightarrow> tab option" where
  "lookup_tab s i = (if i < length (widgets s) then Some (widgets s ! i) else None)"

definition store_tab :: "state \<Rightarrow> nat \<Rightarrow> tab \<Rightarrow> state" where
  "store_tab s i t = s\<lparr>widgets := (widgets s)[i := t]\<rparr>"

text \<open>The marker calls of a tab.\<close>

definition markersAtLine :: "tab \<Rightarrow> int \<Rightarrow> bool" where
  "markersAtLine t l = (l \<in> markers t)"

definition markerAdd :: "int \<Rightarrow> tab \<Rightarrow> tab" where
  "markerAdd l t = t\<lparr>markers := insert l (markers t)\<rparr>"

definition markerDelete :: "int \<Rightarrow> tab \<Rightarrow> tab" where
  "markerDelete l t = t\<lparr>markers := markers t - {l}\<rparr>"

definition markerDeleteAll :: "tab \<Rightarrow> tab" where
  "markerDeleteAll t = t\<lparr>markers := {}\<rparr>"

definition setSelection :: "int \<Rightarrow> int \<Rightarrow> int \<Rightarrow> int \<Rightarrow> tab \<Rightarrow> tab" where
  "setSelection a b c d t = t\<lparr>selection := (a, b, c, d)\<rparr>"

text \<open>
  Modelled from the spec: the methods of \<^verbatim>\<open>Debugger\<close> that the source calls.
  \<^verbatim>\<open>breakpoints(path)\<close> is \<^verbatim>\<open>all_for(file)\<close> of the spec (section 4.1): the
  dictionary of the file, empty for a file without breakpoints; it needs the
  attribute \<^verbatim>\<open>bp_index\<close>. The others are the requests of section 4.2.
\<close>

definition breakpoints :: "debugger \<Rightarrow> string option \<Rightarrow> (int \<times> breakpoint) list option" where
  "breakpoints d p =
     (case bp_index d of
        None \<Rightarrow> None
      | Some idx \<Rightarrow> Some (case map_of idx p of None \<Rightarrow> [] | Some bps \<Rightarrow> bps))"

definition send :: "request \<Rightarrow> debugger \<Rightarrow> debugger" where
  "send r d = d\<lparr>sent := sent d @ [r]\<rparr>"

definition create_breakpoint :: "debugger \<Rightarrow> string option \<Rightarrow> int \<Rightarrow> debugger" where
  "create_breakpoint d p l = send (Create_breakpoint p l) d"

definition enable_breakpoint :: "debugger \<Rightarrow> breakpoint \<Rightarrow> debugger" where
  "enable_breakpoint d bp = send (Enable_breakpoint bp) d"

definition disable_breakpoint :: "debugger \<Rightarrow> breakpoint \<Rightarrow> debugger" where
  "disable_breakpoint d bp = send (Disable_breakpoint bp) d"

definition do_run :: "debugger \<Rightarrow> debugger" where
  "do_run d = send Run d"

section \<open>The methods of the source\<close>

subsection \<open>\<^verbatim>\<open>toggle_breakpoint\<close>\<close>

text \<open>
  \<^verbatim>\<open>toggle_breakpoint(self, line, tab)\<close>. The first statement needs a debugger
  with a \<^verbatim>\<open>bp_index\<close> and a tab, and raises \<^verbatim>\<open>AttributeError\<close> otherwise. In the
  branch of a shown marker \<^verbatim>\<open>bps[line + 1]\<close> is evaluated before anything is
  changed and raises \<^verbatim>\<open>KeyError\<close> for a missing key. In the other branch the
  marker is added first; \<^verbatim>\<open>if breakpoint:\<close> is the test that \<^verbatim>\<open>get\<close> found a
  record.
\<close>

definition toggle_breakpoint :: "state \<Rightarrow> int \<Rightarrow> nat \<Rightarrow> outcome" where
  "toggle_breakpoint s l i =
     (case debugger s of
        None \<Rightarrow> Inl (AttributeError, s)
      | Some d \<Rightarrow>
     (case lookup_tab s i of
        None \<Rightarrow> Inl (AttributeError, s)
      | Some t \<Rightarrow>
     (case breakpoints d (path t) of
        None \<Rightarrow> Inl (AttributeError, s)
      | Some bps \<Rightarrow>
        if markersAtLine t l then
          (case map_of bps (l + 1) of
             None \<Rightarrow> Inl (KeyError, s)
           | Some bp \<Rightarrow>
               Inr (store_tab (s\<lparr>debugger := Some (disable_breakpoint d bp)\<rparr>) i
                      (markerDelete l t)))
        else
          (case map_of bps (l + 1) of
             Some bp \<Rightarrow>
               Inr (store_tab (s\<lparr>debugger := Some (enable_breakpoint d bp)\<rparr>) i
                      (markerAdd l t))
           | None \<Rightarrow>
               Inr (store_tab (s\<lparr>debugger := Some (create_breakpoint d (path t) (l + 1))\<rparr>) i
                      (markerAdd l t))))))"

text \<open>
  The same line of the same tab toggled \<open>n\<close> times in succession; an exception
  ends the sequence.
\<close>

fun toggles :: "nat \<Rightarrow> state \<Rightarrow> int \<Rightarrow> nat \<Rightarrow> outcome" where
  "toggles 0 s l i = Inr s"
| "toggles (Suc n) s l i =
     (case toggle_breakpoint s l i of
        Inl e \<Rightarrow> Inl e
      | Inr s' \<Rightarrow> toggles n s' l i)"

subsection \<open>\<^verbatim>\<open>stop\<close>\<close>

text \<open>
  \<^verbatim>\<open>stop(self)\<close>. With a runner: the process is killed and waited for,
  \<^verbatim>\<open>runner\<close> and \<^verbatim>\<open>debugger\<close> become \<^verbatim>\<open>None\<close>, the runner pane and the inspector
  are removed. With or without one: \<^verbatim>\<open>editor.change_mode('python')\<close>,
  \<^verbatim>\<open>editor.mode = 'python'\<close>, \<^verbatim>\<open>view.set_read_only(False)\<close>. Of
  \<^verbatim>\<open>change_mode\<close>, a method of the editor outside the source file, the model
  keeps the mode it was called with.
\<close>

definition stop :: "state \<Rightarrow> state" where
  "stop s =
     (let s1 = (case runner s of
                  None \<Rightarrow> s
                | Some p \<Rightarrow> s\<lparr>killed := killed s @ [p], runner := None, debugger := None,
                              python_runner := False, debug_inspector := False\<rparr>)
      in s1\<lparr>changed_mode := ''python'', mode := ''python'', read_only := False\<rparr>)"

subsection \<open>\<^verbatim>\<open>finished\<close>\<close>

text \<open>The names of \<^verbatim>\<open>actions()\<close>, in its order.\<close>

definition actions :: "string list" where
  "actions = [''stop'', ''run'', ''step-over'', ''step-in'', ''step-out'']"

text \<open>
  The first loop of \<^verbatim>\<open>finished\<close>: \<^verbatim>\<open>slots[name].setEnabled(False)\<close> for every
  action but \<^verbatim>\<open>stop\<close>; subscripting \<^verbatim>\<open>slots\<close> raises \<^verbatim>\<open>KeyError\<close> for a name
  without a button.
\<close>

fun disable_actions :: "string list \<Rightarrow> state \<Rightarrow> outcome" where
  "disable_actions [] s = Inr s"
| "disable_actions (a # as) s =
     (if a \<noteq> ''stop'' then
        (case map_of (slots s) a of
           None \<Rightarrow> Inl (KeyError, s)
         | Some _ \<Rightarrow> disable_actions as (s\<lparr>slots := AList.update a False (slots s)\<rparr>))
      else disable_actions as s)"

text \<open>
  \<^verbatim>\<open>breakpoint_lines.add(x)\<close> on the list that represents the set: an element
  that is new is appended. The list is thus in the order of insertion, which
  need not be the order in which Python iterates the set.
\<close>

definition set_add :: "int \<Rightarrow> int list \<Rightarrow> int list" where
  "set_add x xs = (if x \<in> set xs then xs else xs @ [x])"

text \<open>
  The inner loop over \<^verbatim>\<open>self.debugger.breakpoints(tab.path).items()\<close>: an enabled
  breakpoint under key \<^verbatim>\<open>line\<close> gets its marker and its entry in
  \<^verbatim>\<open>breakpoint_lines\<close> at \<^verbatim>\<open>line - 1\<close>.
\<close>

fun restore_markers :: "(int \<times> breakpoint) list \<Rightarrow> tab \<Rightarrow> tab" where
  "restore_markers [] t = t"
| "restore_markers ((l, bp) # items) t =
     restore_markers items
       (if enabled bp
        then (markerAdd (l - 1) t)\<lparr>breakpoint_lines := set_add (l - 1) (breakpoint_lines t)\<rparr>
        else t)"

text \<open>
  The body of the loop over the tabs. \<^verbatim>\<open>hasattr(self.debugger, 'bp_index')\<close> is
  false for \<^verbatim>\<open>None\<close> and for a debugger without the attribute.
\<close>

definition finished_tab :: "debugger option \<Rightarrow> tab \<Rightarrow> tab" where
  "finished_tab dbg t =
     (let t1 = setSelection 0 0 0 0 ((markerDeleteAll t)\<lparr>breakpoint_lines := []\<rparr>)
      in case dbg of
           None \<Rightarrow> t1
         | Some d \<Rightarrow>
             (case breakpoints d (path t1) of
                None \<Rightarrow> t1
              | Some bps \<Rightarrow> restore_markers bps t1))"

text \<open>\<^verbatim>\<open>finished(self, code, status)\<close>; neither argument is used.\<close>

definition finished :: "state \<Rightarrow> int \<Rightarrow> int \<Rightarrow> outcome" where
  "finished s code status =
     (case disable_actions actions s of
        Inl e \<Rightarrow> Inl e
      | Inr s1 \<Rightarrow>
          Inr (s1\<lparr>status_message := ''Your script has finished running.'',
                  widgets := map (finished_tab (debugger s1)) (widgets s1)\<rparr>))"

text \<open>
  The breakpoint that the debugger holds for a file under a 1-based line,
  \<^verbatim>\<open>self.debugger.breakpoints(path).get(n)\<close>; none where there is no debugger or
  no \<^verbatim>\<open>bp_index\<close>.
\<close>

definition store_at :: "state \<Rightarrow> string option \<Rightarrow> int \<Rightarrow> breakpoint option" where
  "store_at s p n =
     (case debugger s of
        None \<Rightarrow> None
      | Some d \<Rightarrow> (case breakpoints d p of None \<Rightarrow> None | Some bps \<Rightarrow> map_of bps n))"

subsection \<open>\<^verbatim>\<open>debug_on_bootstrap\<close>\<close>

text \<open>
  \<^verbatim>\<open>debug_on_bootstrap(self)\<close>: for every tab, for every line of its
  \<^verbatim>\<open>breakpoint_lines\<close>, \<^verbatim>\<open>create_breakpoint(tab.path, line + 1)\<close>; then
  \<^verbatim>\<open>do_run()\<close>. Without a debugger the first call on it raises, at the latest
  \<^verbatim>\<open>do_run\<close>, and nothing has been changed before.
\<close>

definition bootstrap_tab :: "debugger \<Rightarrow> tab \<Rightarrow> debugger" where
  "bootstrap_tab d t = foldl (\<lambda>d' l. create_breakpoint d' (path t) (l + 1)) d (breakpoint_lines t)"

definition debug_on_bootstrap :: "state \<Rightarrow> outcome" where
  "debug_on_bootstrap s =
     (case debugger s of
        None \<Rightarrow> Inl (AttributeError, s)
      | Some d \<Rightarrow> Inr (s\<lparr>debugger := Some (do_run (foldl bootstrap_tab d (widgets s)))\<rparr>))"

subsection \<open>The events of breakpoints and lines\<close>

text \<open>
  Each handler starts with \<^verbatim>\<open>tab = self.view.current_tab\<close> and calls a method
  of \<^verbatim>\<open>tab\<close>, which raises \<^verbatim>\<open>AttributeError\<close> when there is no current tab.
\<close>

definition the_current_tab :: "state \<Rightarrow> (nat \<times> tab) option" where
  "the_current_tab s =
     (case current_tab s of
        None \<Rightarrow> None
      | Some i \<Rightarrow> (case lookup_tab s i of None \<Rightarrow> None | Some t \<Rightarrow> Some (i, t)))"

definition debug_on_breakpoint_enable :: "state \<Rightarrow> breakpoint \<Rightarrow> outcome" where
  "debug_on_breakpoint_enable s bp =
     (case the_current_tab s of
        None \<Rightarrow> Inl (AttributeError, s)
      | Some (i, t) \<Rightarrow> Inr (store_tab s i (markerAdd (line bp - 1) t)))"

definition debug_on_breakpoint_disable :: "state \<Rightarrow> breakpoint \<Rightarrow> outcome" where
  "debug_on_breakpoint_disable s bp =
     (case the_current_tab s of
        None \<Rightarrow> Inl (AttributeError, s)
      | Some (i, t) \<Rightarrow> Inr (store_tab s i (markerDelete (line bp - 1) t)))"

definition debug_on_line :: "state \<Rightarrow> string \<Rightarrow> int \<Rightarrow> outcome" where
  "debug_on_line s filename l =
     (case the_current_tab s of
        None \<Rightarrow> Inl (AttributeError, s)
      | Some (i, t) \<Rightarrow> Inr (store_tab s i (setSelection (l - 1) 0 l 0 t)))"

section \<open>Example sessions\<close>

text \<open>
  A session under way: the files \<^verbatim>\<open>a.py\<close> (selected) and \<^verbatim>\<open>b.py\<close> are open,
  the debugger knows an enabled breakpoint at line 10 and a disabled one at
  line 12 of \<^verbatim>\<open>a.py\<close>, the marker of the first is shown at line 9.
\<close>

definition bp10 :: breakpoint where
  "bp10 = \<lparr>file_path = Some ''a.py'', line = 10, enabled = True, ignore_count = 0\<rparr>"

definition bp12 :: breakpoint where
  "bp12 = \<lparr>file_path = Some ''a.py'', line = 12, enabled = False, ignore_count = 0\<rparr>"

definition tab_a :: tab where
  "tab_a = \<lparr>path = Some ''a.py'', markers = {9}, breakpoint_lines = [9],
            selection = (9, 0, 10, 0)\<rparr>"

definition tab_b :: tab where
  "tab_b = \<lparr>path = Some ''b.py'', markers = {}, breakpoint_lines = [],
            selection = (0, 0, 0, 0)\<rparr>"

definition session_debugger :: debugger where
  "session_debugger =
     \<lparr>bp_index = Some [(Some ''a.py'', [(10, bp10), (12, bp12)])], sent = []\<rparr>"

definition session :: state where
  "session =
     \<lparr>runner = Some 1,
      debugger = Some session_debugger,
      widgets = [tab_a, tab_b],
      current_tab = Some 0,
      slots = [(''stop'', True), (''run'', True), (''step-over'', True),
               (''step-in'', True), (''step-out'', True)],
      python_runner = True,
      debug_inspector = True,
      read_only = True,
      status_message = ''Running script a.py'',
      changed_mode = ''debugger'',
      mode = ''debugger'',
      killed = []\<rparr>"

text \<open>
  The state in which \<^verbatim>\<open>start\<close> calls \<^verbatim>\<open>self.stop()\<close> for want of a tab: the
  editor is in the debugger's mode, nothing was started.
\<close>

definition nothing_open :: state where
  "nothing_open =
     \<lparr>runner = None,
      debugger = None,
      widgets = [],
      current_tab = None,
      slots = [(''stop'', True), (''run'', True), (''step-over'', True),
               (''step-in'', True), (''step-out'', True)],
      python_runner = False,
      debug_inspector = False,
      read_only = False,
      status_message = [],
      changed_mode = ''debugger'',
      mode = ''debugger'',
      killed = []\<rparr>"

text \<open>
  The session after a click on the margin of line 4 of \<^verbatim>\<open>a.py\<close>, where the
  debugger knows no breakpoint: the marker is shown and the request to create
  the breakpoint is sent, the record is not there yet.
\<close>

definition session_pending :: state where
  "session_pending =
     session\<lparr>debugger := Some (session_debugger\<lparr>sent := [Create_breakpoint (Some ''a.py'') 5]\<rparr>),
             widgets := [tab_a\<lparr>markers := {4, 9}\<rparr>, tab_b]\<rparr>"

text \<open>
  The session at the moment of the bootstrap event: the debugger knows no
  breakpoint yet, the tabs remember the lines 9 and 11 of \<^verbatim>\<open>a.py\<close> and the line
  2 of \<^verbatim>\<open>b.py\<close>.
\<close>

definition starting :: state where
  "starting =
     session\<lparr>debugger := Some \<lparr>bp_index = Some [], sent = []\<rparr>,
             widgets := [tab_a\<lparr>markers := {}, breakpoint_lines := [9, 11]\<rparr>,
                         tab_b\<lparr>breakpoint_lines := [2]\<rparr>]\<rparr>"

text \<open>The session after its process has ended, before \<^verbatim>\<open>stop\<close> is pressed.\<close>

definition session_finished :: state where
  "session_finished =
     session\<lparr>slots := [(''stop'', True), (''run'', False), (''step-over'', False),
                       (''step-in'', False), (''step-out'', False)],
             status_message := ''Your script has finished running.'',
             widgets := [tab_a\<lparr>selection := (0, 0, 0, 0)\<rparr>, tab_b]\<rparr>"

section \<open>Auxiliary facts\<close>

lemmas session_defs = session_def session_debugger_def session_pending_def nothing_open_def
  tab_a_def tab_b_def bp10_def bp12_def

lemmas tab_defs = markersAtLine_def markerAdd_def markerDelete_def markerDeleteAll_def
  setSelection_def

lemmas debugger_defs = breakpoints_def send_def create_breakpoint_def enable_breakpoint_def
  disable_breakpoint_def do_run_def

lemma lookup_tab_length:
  "lookup_tab s i = Some t \<Longrightarrow> i < length (widgets s)"
  by (simp add: lookup_tab_def split: if_splits)

lemma lookup_tab_store_tab:
  "lookup_tab (store_tab s i t) j =
     (if j < length (widgets s) then Some (if j = i then t else widgets s ! j) else None)"
  by (simp add: lookup_tab_def store_tab_def)

lemma store_tab_same:
  "lookup_tab s i = Some t \<Longrightarrow> store_tab s i t = s"
  by (auto simp: lookup_tab_def store_tab_def split: if_splits)

lemma store_tab_twice:
  "store_tab (store_tab s i t) i t' = store_tab s i t'"
  by (simp add: store_tab_def)

lemma store_tab_debugger:
  "store_tab (s\<lparr>debugger := x\<rparr>) i t = (store_tab s i t)\<lparr>debugger := x\<rparr>"
  by (simp add: store_tab_def)

lemma the_current_tab_store_tab:
  "current_tab s = Some j \<Longrightarrow> j < length (widgets s) \<Longrightarrow>
   the_current_tab (store_tab (s\<lparr>debugger := x\<rparr>) i t) =
     Some (j, if j = i then t else widgets s ! j)"
  by (simp add: the_current_tab_def lookup_tab_def store_tab_def)

lemma toggle_breakpoint_returns:
  assumes "toggle_breakpoint s l i = Inr s1"
    and "debugger s = Some d" and "lookup_tab s i = Some t"
    and "breakpoints d (path t) = Some bps"
  shows "\<exists>r. s1 = store_tab (s\<lparr>debugger := Some (send r d)\<rparr>) i
                  (if l \<in> markers t then markerDelete l t else markerAdd l t) \<and>
             (case map_of bps (l + 1) of
                None \<Rightarrow> l \<notin> markers t \<and> r = Create_breakpoint (path t) (l + 1)
              | Some bp \<Rightarrow> r = (if l \<in> markers t then Disable_breakpoint bp
                                else Enable_breakpoint bp))"
  using assms
  by (auto simp: toggle_breakpoint_def markersAtLine_def enable_breakpoint_def
      disable_breakpoint_def create_breakpoint_def split: option.splits if_splits)

lemma toggle_with_record:
  assumes "debugger s = Some d" and "lookup_tab s i = Some t"
    and "breakpoints d (path t) = Some bps" and "map_of bps (l + 1) = Some bp"
  shows "toggle_breakpoint s l i =
           Inr (store_tab
                  (s\<lparr>debugger := Some (send (if l \<in> markers t then Disable_breakpoint bp
                                               else Enable_breakpoint bp) d)\<rparr>) i
                  (if l \<in> markers t then markerDelete l t else markerAdd l t))"
  using assms
  by (simp add: toggle_breakpoint_def markersAtLine_def enable_breakpoint_def
      disable_breakpoint_def)

lemma toggles_with_record:
  assumes "debugger s = Some d" and "lookup_tab s i = Some t"
    and "breakpoints d (path t) = Some bps" and "map_of bps (l + 1) = Some bp"
  shows "\<exists>s' d' t' rs. toggles n s l i = Inr s' \<and> debugger s' = Some d' \<and>
           lookup_tab s' i = Some t' \<and> path t' = path t \<and>
           bp_index d' = bp_index d \<and> sent d' = sent d @ rs \<and> length rs = n \<and>
           set rs \<subseteq> {Enable_breakpoint bp, Disable_breakpoint bp}"
  using assms
proof (induction n arbitrary: s d t)
  case 0
  then show ?case by simp
next
  case (Suc n)
  let ?r = "if l \<in> markers t then Disable_breakpoint bp else Enable_breakpoint bp"
  let ?t1 = "if l \<in> markers t then markerDelete l t else markerAdd l t"
  let ?s1 = "store_tab (s\<lparr>debugger := Some (send ?r d)\<rparr>) i ?t1"
  have len: "i < length (widgets s)"
    using Suc.prems(2) by (rule lookup_tab_length)
  have step: "toggle_breakpoint s l i = Inr ?s1"
    using Suc.prems by (rule toggle_with_record)
  have a: "debugger ?s1 = Some (send ?r d)"
    by (simp add: store_tab_def)
  have b: "lookup_tab ?s1 i = Some ?t1"
    using len by (simp add: lookup_tab_def store_tab_def)
  have p: "path ?t1 = path t"
    by (simp add: tab_defs)
  have c: "breakpoints (send ?r d) (path ?t1) = Some bps"
    using Suc.prems(3) unfolding p by (simp add: breakpoints_def send_def)
  from Suc.IH [OF a b c Suc.prems(4)]
  obtain s' d' t' rs where r: "toggles n ?s1 l i = Inr s'" "debugger s' = Some d'"
    "lookup_tab s' i = Some t'" "path t' = path ?t1" "bp_index d' = bp_index (send ?r d)"
    "sent d' = sent (send ?r d) @ rs" "length rs = n"
    "set rs \<subseteq> {Enable_breakpoint bp, Disable_breakpoint bp}"
    by blast
  have "toggles (Suc n) s l i = Inr s'"
    using step r(1) by simp
  moreover have "sent d' = sent d @ (?r # rs)"
    using r(6) by (simp add: send_def)
  moreover have "set (?r # rs) \<subseteq> {Enable_breakpoint bp, Disable_breakpoint bp}"
    using r(8) by auto
  moreover have "length (?r # rs) = Suc n"
    using r(7) by simp
  moreover have "bp_index d' = bp_index d"
    using r(5) by (simp add: send_def)
  moreover have "path t' = path t"
    using r(4) p by simp
  ultimately show ?case
    using r(2,3) by blast
qed

lemma the_current_tab_SomeD:
  "the_current_tab s = Some (j, u) \<Longrightarrow>
     current_tab s = Some j \<and> j < length (widgets s) \<and> widgets s ! j = u"
  by (auto simp: the_current_tab_def lookup_tab_def split: option.splits if_splits)

lemma the_current_tab_SomeI:
  "current_tab s = Some j \<Longrightarrow> lookup_tab s j = Some u \<Longrightarrow> the_current_tab s = Some (j, u)"
  by (simp add: the_current_tab_def)

lemma store_tab_frame:
  "j < length (widgets s) \<Longrightarrow>
     lookup_tab (store_tab s j u) j = Some u \<and>
     (\<forall>k. k \<noteq> j \<longrightarrow> lookup_tab (store_tab s j u) k = lookup_tab s k) \<and>
     (store_tab s j u)\<lparr>widgets := widgets s\<rparr> = s"
  by (simp add: lookup_tab_def store_tab_def)

lemma bootstrap_tab_sent:
  "bootstrap_tab d t =
     d\<lparr>sent := sent d @ map (\<lambda>l. Create_breakpoint (path t) (l + 1)) (breakpoint_lines t)\<rparr>"
proof -
  have "foldl (\<lambda>d' l. create_breakpoint d' p (l + 1)) d ls =
      d\<lparr>sent := sent d @ map (\<lambda>l. Create_breakpoint p (l + 1)) ls\<rparr>" for p ls
    by (induction ls arbitrary: d) (simp_all add: create_breakpoint_def send_def)
  then show ?thesis
    by (simp add: bootstrap_tab_def)
qed

lemma bootstrap_tabs_sent:
  "foldl bootstrap_tab d ts =
     d\<lparr>sent := sent d @
       concat (map (\<lambda>t. map (\<lambda>l. Create_breakpoint (path t) (l + 1)) (breakpoint_lines t)) ts)\<rparr>"
  by (induction ts arbitrary: d) (simp_all add: bootstrap_tab_sent)

lemma disable_actions_returns:
  assumes "\<forall>a \<in> set as. a \<noteq> ''stop'' \<longrightarrow> map_of (slots s) a \<noteq> None"
  shows "\<exists>sl. disable_actions as s = Inr (s\<lparr>slots := sl\<rparr>) \<and>
           (\<forall>k. map_of sl k =
              (if k \<in> set as \<and> k \<noteq> ''stop'' then Some False else map_of (slots s) k))"
  using assms
proof (induction as arbitrary: s)
  case Nil
  have "s\<lparr>slots := slots s\<rparr> = s" by simp
  then show ?case
    by (metis disable_actions.simps(1) empty_iff list.set(1))
next
  case (Cons a as)
  show ?case
  proof (cases "a = ''stop''")
    case True
    from Cons.prems have "\<forall>a \<in> set as. a \<noteq> ''stop'' \<longrightarrow> map_of (slots s) a \<noteq> None"
      by simp
    from Cons.IH [OF this] obtain sl where
      sl: "disable_actions as s = Inr (s\<lparr>slots := sl\<rparr>)"
        "\<forall>k. map_of sl k =
              (if k \<in> set as \<and> k \<noteq> ''stop'' then Some False else map_of (slots s) k)"
      by blast
    have "disable_actions (a # as) s = Inr (s\<lparr>slots := sl\<rparr>)"
      using True sl(1) by simp
    moreover have "\<forall>k. map_of sl k =
        (if k \<in> set (a # as) \<and> k \<noteq> ''stop'' then Some False else map_of (slots s) k)"
      using True sl(2) by auto
    ultimately show ?thesis by blast
  next
    case False
    let ?s1 = "s\<lparr>slots := AList.update a False (slots s)\<rparr>"
    from Cons.prems False obtain b where b: "map_of (slots s) a = Some b"
      by auto
    have "\<forall>a' \<in> set as. a' \<noteq> ''stop'' \<longrightarrow> map_of (slots ?s1) a' \<noteq> None"
      using Cons.prems by (auto simp: update_conv')
    from Cons.IH [OF this] obtain sl where
      sl: "disable_actions as ?s1 = Inr (?s1\<lparr>slots := sl\<rparr>)"
        "\<forall>k. map_of sl k =
              (if k \<in> set as \<and> k \<noteq> ''stop'' then Some False else map_of (slots ?s1) k)"
      by blast
    have "disable_actions (a # as) s = Inr (s\<lparr>slots := sl\<rparr>)"
      using False b sl(1) by simp
    moreover have "\<forall>k. map_of sl k =
        (if k \<in> set (a # as) \<and> k \<noteq> ''stop'' then Some False else map_of (slots s) k)"
      using False sl(2) by (auto simp: update_conv')
    ultimately show ?thesis by blast
  qed
qed

lemma restore_markers_frame:
  "path (restore_markers bps t) = path t \<and> selection (restore_markers bps t) = selection t"
  by (induction bps t rule: restore_markers.induct) (simp_all add: markerAdd_def)

lemma restore_markers_markers:
  "markers (restore_markers bps t) =
     markers t \<union> {l - 1 | l bp. (l, bp) \<in> set bps \<and> enabled bp}"
  by (induction bps t rule: restore_markers.induct) (auto simp: markerAdd_def)

lemma restore_markers_lines:
  "set (breakpoint_lines (restore_markers bps t)) =
     set (breakpoint_lines t) \<union> {l - 1 | l bp. (l, bp) \<in> set bps \<and> enabled bp}"
  by (induction bps t rule: restore_markers.induct) (auto simp: markerAdd_def set_add_def)

lemma finished_tab_frame:
  "path (finished_tab dbg t) = path t \<and> selection (finished_tab dbg t) = (0, 0, 0, 0)"
  by (simp add: finished_tab_def Let_def restore_markers_frame tab_defs
      split: option.splits)

lemma finished_tab_lines:
  "set (breakpoint_lines (finished_tab dbg t)) = markers (finished_tab dbg t)"
  by (simp add: finished_tab_def Let_def restore_markers_markers restore_markers_lines
      tab_defs split: option.splits)

lemma finished_tab_markers:
  assumes "\<forall>d bps. dbg = Some d \<longrightarrow> breakpoints d (path t) = Some bps \<longrightarrow>
             distinct (map fst bps)"
  shows "(m \<in> markers (finished_tab dbg t)) =
           (\<exists>bp. (case dbg of None \<Rightarrow> None
                  | Some d \<Rightarrow> (case breakpoints d (path t) of None \<Rightarrow> None
                               | Some bps \<Rightarrow> map_of bps (m + 1))) = Some bp \<and> enabled bp)"
proof (cases dbg)
  case None
  then show ?thesis
    by (simp add: finished_tab_def tab_defs)
next
  case (Some d)
  show ?thesis
  proof (cases "breakpoints d (path t)")
    case None
    with Some show ?thesis
      by (simp add: finished_tab_def tab_defs)
  next
    case bps: (Some bps)
    with Some assms have dist: "distinct (map fst bps)"
      by simp
    have "(m \<in> {l - 1 | l bp. (l, bp) \<in> set bps \<and> enabled bp}) =
        (\<exists>bp. map_of bps (m + 1) = Some bp \<and> enabled bp)"
    proof
      assume "m \<in> {l - 1 | l bp. (l, bp) \<in> set bps \<and> enabled bp}"
      then obtain l bp where "m = l - 1" "(l, bp) \<in> set bps" "enabled bp"
        by blast
      then have "map_of bps (m + 1) = Some bp \<and> enabled bp"
        using dist by simp
      then show "\<exists>bp. map_of bps (m + 1) = Some bp \<and> enabled bp" ..
    next
      assume "\<exists>bp. map_of bps (m + 1) = Some bp \<and> enabled bp"
      then obtain bp where "map_of bps (m + 1) = Some bp" "enabled bp"
        by blast
      then have "(m + 1, bp) \<in> set bps" "enabled bp"
        by (auto dest: map_of_SomeD)
      then show "m \<in> {l - 1 | l bp. (l, bp) \<in> set bps \<and> enabled bp}"
        by force
    qed
    with Some bps show ?thesis
      by (simp add: finished_tab_def Let_def restore_markers_markers tab_defs)
  qed
qed

lemma finished_returns:
  assumes "\<forall>a \<in> set actions. a \<noteq> ''stop'' \<longrightarrow> map_of (slots s) a \<noteq> None"
  shows "\<exists>sl. finished s code status =
           Inr (s\<lparr>slots := sl, status_message := ''Your script has finished running.'',
                  widgets := map (finished_tab (debugger s)) (widgets s)\<rparr>) \<and>
           (\<forall>k. map_of sl k =
              (if k \<in> set actions \<and> k \<noteq> ''stop'' then Some False else map_of (slots s) k))"
proof -
  from disable_actions_returns [OF assms] obtain sl where
    sl: "disable_actions actions s = Inr (s\<lparr>slots := sl\<rparr>)"
      "\<forall>k. map_of sl k =
         (if k \<in> set actions \<and> k \<noteq> ''stop'' then Some False else map_of (slots s) k)"
    by blast
  have "finished s code status =
      Inr (s\<lparr>slots := sl, status_message := ''Your script has finished running.'',
             widgets := map (finished_tab (debugger s)) (widgets s)\<rparr>)"
    using sl(1) by (simp add: finished_def)
  with sl(2) show ?thesis by blast
qed


lemma session_slots:
  "\<forall>a \<in> set actions. a \<noteq> ''stop'' \<longrightarrow> map_of (slots session) a \<noteq> None"
  by (auto simp: actions_def session_def)

text \<open>
  Two calls of \<^verbatim>\<open>toggle_breakpoint\<close> in succession at one line of one tab: with a
  record under \<open>l + 1\<close> both return and only the two requests sent remain;
  without one, and without a marker, the second raises \<^verbatim>\<open>KeyError\<close>. Hence
  wherever both calls return, the tabs and the dictionaries are as before.
\<close>

lemma toggle_breakpoint_InrD:
  assumes "toggle_breakpoint s l i = Inr s1"
  shows "\<exists>d t bps. debugger s = Some d \<and> lookup_tab s i = Some t \<and>
           breakpoints d (path t) = Some bps \<and>
           (l \<in> markers t \<longrightarrow> map_of bps (l + 1) \<noteq> None)"
  using assms
  by (auto simp: toggle_breakpoint_def markersAtLine_def split: option.splits if_splits)

lemma toggle_twice_with_record:
  assumes "debugger s = Some d" and "lookup_tab s i = Some t"
    and "breakpoints d (path t) = Some bps" and "map_of bps (l + 1) = Some bp"
  shows "\<exists>s1. toggle_breakpoint s l i = Inr s1 \<and>
           toggle_breakpoint s1 l i =
             Inr (s\<lparr>debugger := Some (d\<lparr>sent := sent d @
                    (if l \<in> markers t
                     then [Disable_breakpoint bp, Enable_breakpoint bp]
                     else [Enable_breakpoint bp, Disable_breakpoint bp])\<rparr>)\<rparr>)"
proof (cases "l \<in> markers t")
  case True
  have len: "i < length (widgets s)"
    using assms(2) by (rule lookup_tab_length)
  let ?d1 = "disable_breakpoint d bp"
  let ?s1 = "store_tab (s\<lparr>debugger := Some ?d1\<rparr>) i (markerDelete l t)"
  have one: "toggle_breakpoint s l i = Inr ?s1"
    using assms True by (simp add: toggle_breakpoint_def markersAtLine_def)
  have bps1: "breakpoints ?d1 (path (markerDelete l t)) = Some bps"
    using assms(3) by (simp add: debugger_defs markerDelete_def)
  have tab1: "lookup_tab ?s1 i = Some (markerDelete l t)"
    using len by (simp add: lookup_tab_store_tab)
  have undo: "markerAdd l (markerDelete l t) = t"
    using True by (simp add: tab_defs insert_absorb)
  have two: "toggle_breakpoint ?s1 l i =
      Inr (store_tab (?s1\<lparr>debugger := Some (enable_breakpoint ?d1 bp)\<rparr>) i t)"
    using assms(4) bps1 tab1
    by (simp add: toggle_breakpoint_def store_tab_debugger undo)
       (simp add: markersAtLine_def markerDelete_def)
  have "store_tab (?s1\<lparr>debugger := Some (enable_breakpoint ?d1 bp)\<rparr>) i t =
      s\<lparr>debugger := Some (d\<lparr>sent := sent d @ [Disable_breakpoint bp, Enable_breakpoint bp]\<rparr>)\<rparr>"
    using assms(2)
    by (simp add: store_tab_debugger store_tab_twice store_tab_same debugger_defs)
  with one two True show ?thesis by simp
next
  case False
  have len: "i < length (widgets s)"
    using assms(2) by (rule lookup_tab_length)
  let ?d1 = "enable_breakpoint d bp"
  let ?s1 = "store_tab (s\<lparr>debugger := Some ?d1\<rparr>) i (markerAdd l t)"
  have one: "toggle_breakpoint s l i = Inr ?s1"
    using assms False by (simp add: toggle_breakpoint_def markersAtLine_def)
  have bps1: "breakpoints ?d1 (path (markerAdd l t)) = Some bps"
    using assms(3) by (simp add: debugger_defs markerAdd_def)
  have tab1: "lookup_tab ?s1 i = Some (markerAdd l t)"
    using len by (simp add: lookup_tab_store_tab)
  have undo: "markerDelete l (markerAdd l t) = t"
    using False by (simp add: tab_defs)
  have two: "toggle_breakpoint ?s1 l i =
      Inr (store_tab (?s1\<lparr>debugger := Some (disable_breakpoint ?d1 bp)\<rparr>) i t)"
    using assms(4) bps1 tab1
    by (simp add: toggle_breakpoint_def store_tab_debugger undo)
       (simp add: markersAtLine_def markerAdd_def)
  have "store_tab (?s1\<lparr>debugger := Some (disable_breakpoint ?d1 bp)\<rparr>) i t =
      s\<lparr>debugger := Some (d\<lparr>sent := sent d @ [Enable_breakpoint bp, Disable_breakpoint bp]\<rparr>)\<rparr>"
    using assms(2)
    by (simp add: store_tab_debugger store_tab_twice store_tab_same debugger_defs)
  with one two False show ?thesis by simp
qed

lemma toggle_twice_without_record:
  assumes "debugger s = Some d" and "lookup_tab s i = Some t"
    and "breakpoints d (path t) = Some bps"
    and "l \<notin> markers t" and "map_of bps (l + 1) = None"
  shows "\<exists>s1. toggle_breakpoint s l i = Inr s1 \<and>
           debugger s1 = Some (d\<lparr>sent := sent d @ [Create_breakpoint (path t) (l + 1)]\<rparr>) \<and>
           lookup_tab s1 i = Some (t\<lparr>markers := insert l (markers t)\<rparr>) \<and>
           toggle_breakpoint s1 l i = Inl (KeyError, s1)"
proof -
  have len: "i < length (widgets s)"
    using assms(2) by (rule lookup_tab_length)
  let ?d1 = "create_breakpoint d (path t) (l + 1)"
  let ?s1 = "store_tab (s\<lparr>debugger := Some ?d1\<rparr>) i (markerAdd l t)"
  have one: "toggle_breakpoint s l i = Inr ?s1"
    using assms by (simp add: toggle_breakpoint_def markersAtLine_def)
  have dbg: "debugger ?s1 = Some ?d1"
    by (simp add: store_tab_def)
  have tab1: "lookup_tab ?s1 i = Some (markerAdd l t)"
    using len by (simp add: lookup_tab_store_tab)
  have bps1: "breakpoints ?d1 (path (markerAdd l t)) = Some bps"
    using assms(3) by (simp add: debugger_defs markerAdd_def)
  have shown: "markersAtLine (markerAdd l t) l"
    by (simp add: tab_defs)
  have two: "toggle_breakpoint ?s1 l i = Inl (KeyError, ?s1)"
    unfolding toggle_breakpoint_def using dbg tab1 bps1 shown assms(5) by simp
  have "debugger ?s1 = Some (d\<lparr>sent := sent d @ [Create_breakpoint (path t) (l + 1)]\<rparr>)"
    using dbg by (simp add: create_breakpoint_def send_def)
  moreover have "lookup_tab ?s1 i = Some (t\<lparr>markers := insert l (markers t)\<rparr>)"
    using tab1 by (simp add: markerAdd_def)
  ultimately show ?thesis
    using one two by blast
qed

lemma toggle_twice_returns:
  assumes "toggle_breakpoint s l i = Inr s1" and "toggle_breakpoint s1 l i = Inr s2"
  shows "widgets s2 = widgets s \<and> s2\<lparr>debugger := debugger s\<rparr> = s \<and>
         (\<exists>d d2. debugger s = Some d \<and> debugger s2 = Some d2 \<and> bp_index d2 = bp_index d)"
proof -
  from toggle_breakpoint_InrD [OF assms(1)] obtain d t bps where
    c: "debugger s = Some d" "lookup_tab s i = Some t" "breakpoints d (path t) = Some bps"
      "l \<in> markers t \<longrightarrow> map_of bps (l + 1) \<noteq> None"
    by blast
  show ?thesis
  proof (cases "map_of bps (l + 1)")
    case None
    with c(4) have "l \<notin> markers t" by simp
    from toggle_twice_without_record [OF c(1-3) this None] assms show ?thesis
      by auto
  next
    case (Some bp)
    let ?rs = "if l \<in> markers t
                     then [Disable_breakpoint bp, Enable_breakpoint bp]
                     else [Enable_breakpoint bp, Disable_breakpoint bp]"
    from toggle_twice_with_record [OF c(1-3) Some] assms
    have s2: "s2 = s\<lparr>debugger := Some (d\<lparr>sent := sent d @ ?rs\<rparr>)\<rparr>"
      by auto
    have "s2\<lparr>debugger := debugger s\<rparr> = s"
      unfolding s2 by simp
    moreover have "widgets s2 = widgets s"
      unfolding s2 by simp
    moreover have "debugger s2 = Some (d\<lparr>sent := sent d @ ?rs\<rparr>)"
      unfolding s2 by simp
    ultimately show ?thesis
      using c(1) by simp
  qed
qed

section \<open>Toggling a breakpoint\<close>

text \<open>
  C10: the branch of \<^verbatim>\<open>toggle_breakpoint\<close> that removes a marker subscripts the
  dictionary of the debugger without a guard. With a marker shown at the
  0-based line \<open>l\<close> of the tab: if the dictionary of the tab's file has no entry
  under \<open>l + 1\<close>, the call raises \<^verbatim>\<open>KeyError\<close> in the state in which it was
  made, so nothing was disabled and no marker was removed; if it has one, the
  call returns, having sent the request to disable that record and removed the
  marker.
\<close>

theorem toggle_off_unguarded:
  assumes "debugger s = Some d" and "lookup_tab s i = Some t"
    and "breakpoints d (path t) = Some bps" and "l \<in> markers t"
  shows "(map_of bps (l + 1) = None \<longrightarrow> toggle_breakpoint s l i = Inl (KeyError, s)) \<and>
         (\<forall>bp. map_of bps (l + 1) = Some bp \<longrightarrow>
            (\<exists>s'. toggle_breakpoint s l i = Inr s' \<and>
                  debugger s' = Some (d\<lparr>sent := sent d @ [Disable_breakpoint bp]\<rparr>) \<and>
                  lookup_tab s' i = Some (t\<lparr>markers := markers t - {l}\<rparr>)))"
proof -
  have "i < length (widgets s)"
    using assms(2) by (rule lookup_tab_length)
  then show ?thesis
    using assms
    by (simp add: toggle_breakpoint_def markersAtLine_def disable_breakpoint_def send_def
        markerDelete_def lookup_tab_def store_tab_def)
qed

theorem toggle_off_unguarded_witness:
  "4 \<in> markers (tab_a\<lparr>markers := {4, 9}\<rparr>) \<and>
   map_of [(10, bp10), (12, bp12)] (4 + 1 :: int) = None \<and>
   toggle_breakpoint session_pending 4 0 = Inl (KeyError, session_pending)"
proof -
  have h1: "debugger session_pending =
      Some (session_debugger\<lparr>sent := [Create_breakpoint (Some ''a.py'') 5]\<rparr>)"
    by (simp add: session_pending_def)
  have h2: "lookup_tab session_pending 0 = Some (tab_a\<lparr>markers := {4, 9}\<rparr>)"
    by (simp add: session_pending_def lookup_tab_def)
  have h3: "breakpoints (session_debugger\<lparr>sent := [Create_breakpoint (Some ''a.py'') 5]\<rparr>)
      (path (tab_a\<lparr>markers := {4, 9}\<rparr>)) = Some [(10, bp10), (12, bp12)]"
    by (simp add: breakpoints_def session_debugger_def tab_a_def)
  have h4: "4 \<in> markers (tab_a\<lparr>markers := {4, 9}\<rparr>)"
    by simp
  have h5: "map_of [(10, bp10), (12, bp12)] (4 + 1 :: int) = None"
    by simp
  from toggle_off_unguarded [OF h1 h2 h3 h4] h4 h5 show ?thesis
    by simp
qed

text \<open>
  C1: two calls of \<^verbatim>\<open>toggle_breakpoint\<close> in succession bring the breakpoints of
  the debugger and the marker of the line back to what they were. The source
  does not do this at a line without marker and without breakpoint: there the
  first call returns, having sent the request to create the breakpoint at
  \<open>l + 1\<close> and shown the marker at \<open>l\<close>; the second call finds the marker,
  subscripts the dictionary at \<open>l + 1\<close> without a guard and raises
  \<^verbatim>\<open>KeyError\<close>. The marker stays shown and no request to disable is sent. The
  other branch of the same method guards the same lookup with \<^verbatim>\<open>get\<close>.
\<close>

theorem double_toggle_raises:
  assumes "debugger s = Some d" and "lookup_tab s i = Some t"
    and "breakpoints d (path t) = Some bps"
    and "l \<notin> markers t" and "map_of bps (l + 1) = None"
  shows "\<exists>s1. toggle_breakpoint s l i = Inr s1 \<and>
           debugger s1 = Some (d\<lparr>sent := sent d @ [Create_breakpoint (path t) (l + 1)]\<rparr>) \<and>
           lookup_tab s1 i = Some (t\<lparr>markers := insert l (markers t)\<rparr>) \<and>
           toggle_breakpoint s1 l i = Inl (KeyError, s1)"
  using assms by (rule toggle_twice_without_record)

theorem double_toggle_raises_witness:
  "4 \<notin> markers tab_a \<and> map_of [(10, bp10), (12, bp12)] (4 + 1 :: int) = None \<and>
   toggle_breakpoint session 4 0 = Inr session_pending \<and>
   toggle_breakpoint session_pending 4 0 = Inl (KeyError, session_pending) \<and>
   4 \<in> markers (widgets session_pending ! 0)"
proof -
  have h1: "debugger session = Some session_debugger"
    by (simp add: session_def)
  have h2: "lookup_tab session 0 = Some tab_a"
    by (simp add: session_def lookup_tab_def)
  have h3: "breakpoints session_debugger (path tab_a) = Some [(10, bp10), (12, bp12)]"
    by (simp add: breakpoints_def session_debugger_def tab_a_def)
  have h4: "4 \<notin> markers tab_a"
    by (simp add: tab_a_def)
  have h5: "map_of [(10, bp10), (12, bp12)] (4 + 1 :: int) = None"
    by simp
  have first: "toggle_breakpoint session 4 0 = Inr session_pending"
    by (simp add: toggle_breakpoint_def lookup_tab_def store_tab_def session_defs tab_defs
        debugger_defs)
  have shown: "4 \<in> markers (widgets session_pending ! 0)"
    by (simp add: session_pending_def)
  from double_toggle_raises [OF h1 h2 h3 h4 h5] obtain s1 where
    "toggle_breakpoint session 4 0 = Inr s1" "toggle_breakpoint s1 4 0 = Inl (KeyError, s1)"
    by blast
  with first have "toggle_breakpoint session_pending 4 0 = Inl (KeyError, session_pending)"
    by simp
  with h4 h5 first shown show ?thesis
    by simp
qed

text \<open>
  C4: toggling on never duplicates a breakpoint. At a line without a marker
  whose breakpoint exists under \<open>l + 1\<close> in the dictionary of the tab's file
  (enabled or disabled), \<^verbatim>\<open>toggle_breakpoint\<close> shows the marker and sends the
  request to enable that same record; it sends no request to create one.
  However often the line is then toggled, every call returns, the dictionary
  stays as it is, and every request sent enables or disables that one record.
\<close>

theorem toggle_on_reuses:
  assumes "debugger s = Some d" and "lookup_tab s i = Some t"
    and "breakpoints d (path t) = Some bps" and "map_of bps (l + 1) = Some bp"
    and "l \<notin> markers t"
  shows "(\<exists>s1. toggle_breakpoint s l i = Inr s1 \<and>
            debugger s1 = Some (d\<lparr>sent := sent d @ [Enable_breakpoint bp]\<rparr>) \<and>
            lookup_tab s1 i = Some (t\<lparr>markers := insert l (markers t)\<rparr>)) \<and>
         (\<forall>n. \<exists>s' d' rs. toggles n s l i = Inr s' \<and> debugger s' = Some d' \<and>
            breakpoints d' (path t) = Some bps \<and> sent d' = sent d @ rs \<and> length rs = n \<and>
            set rs \<subseteq> {Enable_breakpoint bp, Disable_breakpoint bp})"
proof
  have len: "i < length (widgets s)"
    using assms(2) by (rule lookup_tab_length)
  show "\<exists>s1. toggle_breakpoint s l i = Inr s1 \<and>
            debugger s1 = Some (d\<lparr>sent := sent d @ [Enable_breakpoint bp]\<rparr>) \<and>
            lookup_tab s1 i = Some (t\<lparr>markers := insert l (markers t)\<rparr>)"
    using toggle_with_record [OF assms(1-4)] assms(5) len
    by (simp add: store_tab_def lookup_tab_def send_def markerAdd_def)
next
  show "\<forall>n. \<exists>s' d' rs. toggles n s l i = Inr s' \<and> debugger s' = Some d' \<and>
            breakpoints d' (path t) = Some bps \<and> sent d' = sent d @ rs \<and> length rs = n \<and>
            set rs \<subseteq> {Enable_breakpoint bp, Disable_breakpoint bp}"
  proof
    fix n
    from toggles_with_record [OF assms(1-4), of n]
    obtain s' d' t' rs where r: "toggles n s l i = Inr s'" "debugger s' = Some d'"
      "bp_index d' = bp_index d" "sent d' = sent d @ rs" "length rs = n"
      "set rs \<subseteq> {Enable_breakpoint bp, Disable_breakpoint bp}"
      by blast
    have "breakpoints d' (path t) = Some bps"
      using assms(3) r(3) by (simp add: breakpoints_def)
    with r show "\<exists>s' d' rs. toggles n s l i = Inr s' \<and> debugger s' = Some d' \<and>
            breakpoints d' (path t) = Some bps \<and> sent d' = sent d @ rs \<and> length rs = n \<and>
            set rs \<subseteq> {Enable_breakpoint bp, Disable_breakpoint bp}"
      by blast
  qed
qed

theorem toggle_on_reuses_witness:
  "11 \<notin> markers tab_a \<and> map_of [(10, bp10), (12, bp12)] (11 + 1 :: int) = Some bp12 \<and>
   \<not> enabled bp12 \<and>
   debugger (projr (toggle_breakpoint session 11 0)) =
     Some (session_debugger\<lparr>sent := [Enable_breakpoint bp12]\<rparr>) \<and>
   isl (toggles 3 session 11 0) = False"
proof -
  have h1: "debugger session = Some session_debugger"
    by (simp add: session_def)
  have h2: "lookup_tab session 0 = Some tab_a"
    by (simp add: session_def lookup_tab_def)
  have h3: "breakpoints session_debugger (path tab_a) = Some [(10, bp10), (12, bp12)]"
    by (simp add: breakpoints_def session_debugger_def tab_a_def)
  have h4: "map_of [(10, bp10), (12, bp12)] (11 + 1 :: int) = Some bp12"
    by simp
  have h5: "11 \<notin> markers tab_a"
    by (simp add: tab_a_def)
  have h6: "\<not> enabled bp12" "sent session_debugger = []"
    by (simp_all add: bp12_def session_debugger_def)
  from toggle_on_reuses [OF h1 h2 h3 h4 h5] have
    a: "\<exists>s1. toggle_breakpoint session 11 0 = Inr s1 \<and>
            debugger s1 = Some (session_debugger\<lparr>sent := sent session_debugger @ [Enable_breakpoint bp12]\<rparr>)"
    and b: "\<exists>s'. toggles 3 session 11 0 = Inr s'"
    by blast+
  from a b h4 h5 h6 show ?thesis
    by auto
qed

text \<open>
  C3: the two directions of the translation between the 0-based lines of the
  editor and the 1-based lines of the debugger agree. A call of
  \<^verbatim>\<open>toggle_breakpoint\<close> at line \<open>l\<close> that returns has sent one request, which is about
  line \<open>l + 1\<close>: it creates the breakpoint of the file at \<open>l + 1\<close>, or enables or
  disables the record found under \<open>l + 1\<close>. The event of a breakpoint at line
  \<open>l + 1\<close> then changes the marker of the selected tab at line \<open>l\<close> and no other:
  enabling shows it, disabling removes it. Where the selected tab is the
  toggled one, the event that answers the request finds the marker of line
  \<open>l\<close> as the toggle left it and changes nothing.
\<close>

theorem coordinate_symmetry:
  assumes "toggle_breakpoint s l i = Inr s1"
    and "debugger s = Some d" and "lookup_tab s i = Some t"
    and "breakpoints d (path t) = Some bps"
    and "current_tab s = Some j" and "lookup_tab s j = Some u"
    and "line ev = l + 1"
  shows "(\<exists>r. debugger s1 = Some (d\<lparr>sent := sent d @ [r]\<rparr>) \<and>
            (case map_of bps (l + 1) of
               None \<Rightarrow> l \<notin> markers t \<and> r = Create_breakpoint (path t) (l + 1)
             | Some bp \<Rightarrow> r = (if l \<in> markers t then Disable_breakpoint bp
                               else Enable_breakpoint bp))) \<and>
         (\<exists>s2 u1. lookup_tab s1 j = Some u1 \<and>
            debug_on_breakpoint_enable s1 ev = Inr s2 \<and>
            lookup_tab s2 j = Some (u1\<lparr>markers := insert l (markers u1)\<rparr>)) \<and>
         (\<exists>s2 u1. lookup_tab s1 j = Some u1 \<and>
            debug_on_breakpoint_disable s1 ev = Inr s2 \<and>
            lookup_tab s2 j = Some (u1\<lparr>markers := markers u1 - {l}\<rparr>)) \<and>
         (j = i \<longrightarrow>
            (if l \<in> markers t
             then l \<notin> markers (widgets s1 ! i) \<and> debug_on_breakpoint_disable s1 ev = Inr s1
             else l \<in> markers (widgets s1 ! i) \<and> debug_on_breakpoint_enable s1 ev = Inr s1))"
proof -
  have len: "i < length (widgets s)" "j < length (widgets s)"
    using assms(3,6) by (auto dest: lookup_tab_length)
  let ?t1 = "if l \<in> markers t then markerDelete l t else markerAdd l t"
  from toggle_breakpoint_returns [OF assms(1-4)]
  obtain r where s1: "s1 = store_tab (s\<lparr>debugger := Some (send r d)\<rparr>) i ?t1"
    and r: "case map_of bps (l + 1) of
                None \<Rightarrow> l \<notin> markers t \<and> r = Create_breakpoint (path t) (l + 1)
              | Some bp \<Rightarrow> r = (if l \<in> markers t then Disable_breakpoint bp
                                else Enable_breakpoint bp)"
    by blast
  let ?u1 = "if j = i then ?t1 else widgets s ! j"
  have cur: "the_current_tab s1 = Some (j, ?u1)"
    unfolding s1 using assms(5) len(2) by (rule the_current_tab_store_tab)
  have look: "lookup_tab s1 j = Some ?u1"
    unfolding s1 using len by (simp add: lookup_tab_def store_tab_def)
  have len1: "j < length (widgets s1)"
    unfolding s1 using len by (simp add: store_tab_def)
  have out: "debugger s1 = Some (d\<lparr>sent := sent d @ [r]\<rparr>)"
    unfolding s1 by (simp add: store_tab_def send_def)
  have en: "\<exists>s2 u1. lookup_tab s1 j = Some u1 \<and>
            debug_on_breakpoint_enable s1 ev = Inr s2 \<and>
            lookup_tab s2 j = Some (u1\<lparr>markers := insert l (markers u1)\<rparr>)"
    using look cur len1 assms(7)
    by (simp add: debug_on_breakpoint_enable_def lookup_tab_store_tab markerAdd_def)
  have dis: "\<exists>s2 u1. lookup_tab s1 j = Some u1 \<and>
            debug_on_breakpoint_disable s1 ev = Inr s2 \<and>
            lookup_tab s2 j = Some (u1\<lparr>markers := markers u1 - {l}\<rparr>)"
    using look cur len1 assms(7)
    by (simp add: debug_on_breakpoint_disable_def lookup_tab_store_tab markerDelete_def)
  have same: "j = i \<longrightarrow>
            (if l \<in> markers t
             then l \<notin> markers (widgets s1 ! i) \<and> debug_on_breakpoint_disable s1 ev = Inr s1
             else l \<in> markers (widgets s1 ! i) \<and> debug_on_breakpoint_enable s1 ev = Inr s1)"
  proof
    assume ji: "j = i"
    have nth: "widgets s1 ! i = ?t1"
      unfolding s1 using len by (simp add: store_tab_def)
    have look': "lookup_tab s1 i = Some ?t1"
      using look ji by simp
    show "if l \<in> markers t
             then l \<notin> markers (widgets s1 ! i) \<and> debug_on_breakpoint_disable s1 ev = Inr s1
             else l \<in> markers (widgets s1 ! i) \<and> debug_on_breakpoint_enable s1 ev = Inr s1"
    proof (cases "l \<in> markers t")
      case True
      have "markerDelete l (markerDelete l t) = markerDelete l t"
        by (simp add: markerDelete_def)
      then have "store_tab s1 i (markerDelete (line ev - 1) (markerDelete l t)) = s1"
        using look' True assms(7) by (simp add: store_tab_same)
      then show ?thesis
        using True cur ji nth assms(7)
        by (simp add: debug_on_breakpoint_disable_def) (simp add: markerDelete_def)
    next
      case False
      have "markerAdd l (markerAdd l t) = markerAdd l t"
        by (simp add: markerAdd_def)
      then have "store_tab s1 i (markerAdd (line ev - 1) (markerAdd l t)) = s1"
        using look' False assms(7) by (simp add: store_tab_same)
      then show ?thesis
        using False cur ji nth assms(7)
        by (simp add: debug_on_breakpoint_enable_def) (simp add: markerAdd_def)
    qed
  qed
  from out r en dis same show ?thesis
    by blast
qed

theorem coordinate_symmetry_witness:
  "line bp12 = 11 + 1 \<and>
   debugger (projr (toggle_breakpoint session 11 0)) =
     Some (session_debugger\<lparr>sent := [Enable_breakpoint bp12]\<rparr>) \<and>
   11 \<in> markers (widgets (projr (toggle_breakpoint session 11 0)) ! 0) \<and>
   debug_on_breakpoint_enable (projr (toggle_breakpoint session 11 0)) bp12 =
     Inr (projr (toggle_breakpoint session 11 0))"
proof -
  define s1 where "s1 = projr (toggle_breakpoint session 11 0)"
  have h0: "toggle_breakpoint session 11 0 = Inr s1"
    unfolding s1_def
    by (simp add: toggle_breakpoint_def lookup_tab_def session_defs tab_defs debugger_defs)
  have h1: "debugger session = Some session_debugger"
    by (simp add: session_def)
  have h2: "lookup_tab session 0 = Some tab_a"
    by (simp add: session_def lookup_tab_def)
  have h3: "breakpoints session_debugger (path tab_a) = Some [(10, bp10), (12, bp12)]"
    by (simp add: breakpoints_def session_debugger_def tab_a_def)
  have h4: "current_tab session = Some 0"
    by (simp add: session_def)
  have h5: "line bp12 = 11 + 1"
    by (simp add: bp12_def)
  have h6: "11 \<notin> markers tab_a" "sent session_debugger = []"
    by (simp_all add: tab_a_def session_debugger_def)
  from coordinate_symmetry [OF h0 h1 h2 h3 h4 h2 h5] h5 h6 show ?thesis
    unfolding s1_def [symmetric] by auto
qed


section \<open>The events of the debugger\<close>

text \<open>
  C9: the handlers \<^verbatim>\<open>debug_on_line\<close>, \<^verbatim>\<open>debug_on_breakpoint_enable\<close> and
  \<^verbatim>\<open>debug_on_breakpoint_disable\<close> act on the selected tab only, and the file
  that the event names has no influence. Two line events with the same line
  have the same outcome whatever their files; two breakpoint events whose
  breakpoints have the same line have the same outcome, whatever else differs
  in the breakpoints. A handler that returns has changed no tab but the selected
  one, and nothing outside the tabs.
\<close>

theorem events_ignore_file:
  "debug_on_line s f l = debug_on_line s g l \<and>
   (line bp = line bp' \<longrightarrow>
      debug_on_breakpoint_enable s bp = debug_on_breakpoint_enable s bp' \<and>
      debug_on_breakpoint_disable s bp = debug_on_breakpoint_disable s bp') \<and>
   (\<forall>s'. debug_on_line s f l = Inr s' \<or> debug_on_breakpoint_enable s bp = Inr s' \<or>
         debug_on_breakpoint_disable s bp = Inr s' \<longrightarrow>
      (\<exists>j. current_tab s = Some j \<and>
           (\<forall>k. k \<noteq> j \<longrightarrow> lookup_tab s' k = lookup_tab s k) \<and>
           s'\<lparr>widgets := widgets s\<rparr> = s))"
proof (intro conjI allI impI)
  show "debug_on_line s f l = debug_on_line s g l"
    by (simp add: debug_on_line_def)
next
  assume "line bp = line bp'"
  then show "debug_on_breakpoint_enable s bp = debug_on_breakpoint_enable s bp'"
    by (simp add: debug_on_breakpoint_enable_def cong: option.case_cong)
next
  assume "line bp = line bp'"
  then show "debug_on_breakpoint_disable s bp = debug_on_breakpoint_disable s bp'"
    by (simp add: debug_on_breakpoint_disable_def cong: option.case_cong)
next
  fix s'
  assume "debug_on_line s f l = Inr s' \<or> debug_on_breakpoint_enable s bp = Inr s' \<or>
         debug_on_breakpoint_disable s bp = Inr s'"
  then obtain j u u' where cur: "the_current_tab s = Some (j, u)" and s': "s' = store_tab s j u'"
    by (auto simp: debug_on_line_def debug_on_breakpoint_enable_def
        debug_on_breakpoint_disable_def split: option.splits)
  from the_current_tab_SomeD [OF cur] store_tab_frame [of j s u']
  show "\<exists>j. current_tab s = Some j \<and>
           (\<forall>k. k \<noteq> j \<longrightarrow> lookup_tab s' k = lookup_tab s k) \<and>
           s'\<lparr>widgets := widgets s\<rparr> = s"
    unfolding s' by blast
qed

theorem events_ignore_file_witness:
  "line bp10 = line (bp10\<lparr>file_path := Some ''b.py''\<rparr>) \<and>
   debug_on_line session ''b.py'' 3 = debug_on_line session ''a.py'' 3 \<and>
   debug_on_breakpoint_enable session bp10 =
     debug_on_breakpoint_enable session (bp10\<lparr>file_path := Some ''b.py''\<rparr>) \<and>
   debug_on_breakpoint_disable session bp10 =
     debug_on_breakpoint_disable session (bp10\<lparr>file_path := Some ''b.py''\<rparr>) \<and>
   lookup_tab (projr (debug_on_line session ''b.py'' 3)) 1 = lookup_tab session 1"
proof -
  define s' where "s' = projr (debug_on_line session ''b.py'' 3)"
  have h1: "line bp10 = line (bp10\<lparr>file_path := Some ''b.py''\<rparr>)"
    by simp
  have h2: "debug_on_line session ''b.py'' 3 = Inr s'"
    unfolding s'_def
    by (simp add: debug_on_line_def the_current_tab_def lookup_tab_def session_def)
  have h3: "current_tab session = Some 0"
    by (simp add: session_def)
  note fact = events_ignore_file [of session "''b.py''" 3 "''a.py''" bp10
      "bp10\<lparr>file_path := Some ''b.py''\<rparr>"]
  have a: "debug_on_line session ''b.py'' 3 = debug_on_line session ''a.py'' 3"
    using fact by (rule conjunct1)
  have b: "debug_on_breakpoint_enable session bp10 =
       debug_on_breakpoint_enable session (bp10\<lparr>file_path := Some ''b.py''\<rparr>) \<and>
     debug_on_breakpoint_disable session bp10 =
       debug_on_breakpoint_disable session (bp10\<lparr>file_path := Some ''b.py''\<rparr>)"
    using fact [THEN conjunct2, THEN conjunct1] h1 by (rule mp)
  have "\<exists>j. current_tab session = Some j \<and>
           (\<forall>k. k \<noteq> j \<longrightarrow> lookup_tab s' k = lookup_tab session k) \<and>
           s'\<lparr>widgets := widgets session\<rparr> = session"
    using fact [THEN conjunct2, THEN conjunct2, THEN spec, of s'] h2 by blast
  then have c: "lookup_tab s' 1 = lookup_tab session 1"
    using h3 by auto
  from h1 a b c show ?thesis
    unfolding s'_def by blast
qed

text \<open>
  C5, as the spec states it: on \<^verbatim>\<open>on_line(file, line)\<close> the selection is moved,
  for that file, to the 0-based line \<open>line - 1\<close>, and the phase goes from running
  to paused. In \<open>session\<close> the tab of \<^verbatim>\<open>a.py\<close> is selected and the event names
  line 3 of \<^verbatim>\<open>b.py\<close>: the selection of the tab of \<^verbatim>\<open>b.py\<close> stays where it was,
  the selection of \<^verbatim>\<open>a.py\<close> moves to line 2, and no other field of the state
  changes.
\<close>

theorem on_line_counterexample:
  "path (widgets session ! 1) = Some ''b.py'' \<and>
   selection (widgets session ! 1) = (0, 0, 0, 0) \<and>
   debug_on_line session ''b.py'' 3 =
     Inr (session\<lparr>widgets := [tab_a\<lparr>selection := (2, 0, 3, 0)\<rparr>, tab_b]\<rparr>) \<and>
   selection tab_b \<noteq> (2, 0, 3, 0)"
  by (simp add: debug_on_line_def the_current_tab_def lookup_tab_def store_tab_def
      setSelection_def session_def tab_b_def)

text \<open>
  C5, amended: while a tab is selected, \<^verbatim>\<open>debug_on_line(filename, line)\<close> returns
  and sets the selection of the selected tab, whatever file the event names,
  to the range from \<open>(line - 1, 0)\<close> to \<open>(line, 0)\<close>. The other tabs and
  everything outside the tabs are unchanged; the handler records no phase.
\<close>

theorem on_line_selects:
  assumes "current_tab s = Some j" and "lookup_tab s j = Some u"
  shows "\<exists>s'. debug_on_line s f l = Inr s' \<and>
           lookup_tab s' j = Some (u\<lparr>selection := (l - 1, 0, l, 0)\<rparr>) \<and>
           (\<forall>k. k \<noteq> j \<longrightarrow> lookup_tab s' k = lookup_tab s k) \<and>
           s'\<lparr>widgets := widgets s\<rparr> = s"
proof -
  have len: "j < length (widgets s)"
    using assms(2) by (rule lookup_tab_length)
  have "debug_on_line s f l = Inr (store_tab s j (u\<lparr>selection := (l - 1, 0, l, 0)\<rparr>))"
    using the_current_tab_SomeI [OF assms] by (simp add: debug_on_line_def setSelection_def)
  with store_tab_frame [OF len, of "u\<lparr>selection := (l - 1, 0, l, 0)\<rparr>"]
  show ?thesis by simp
qed

theorem on_line_selects_witness:
  "lookup_tab (projr (debug_on_line session ''a.py'' 10)) 0 =
     Some (tab_a\<lparr>selection := (9, 0, 10, 0)\<rparr>) \<and>
   lookup_tab (projr (debug_on_line session ''a.py'' 10)) 1 = Some tab_b"
proof -
  have h1: "current_tab session = Some 0"
    by (simp add: session_def)
  have h2: "lookup_tab session 0 = Some tab_a"
    by (simp add: session_def lookup_tab_def)
  have h3: "lookup_tab session 1 = Some tab_b"
    by (simp add: session_def lookup_tab_def)
  from on_line_selects [OF h1 h2, of "''a.py''" 10] h3 show ?thesis
    by auto
qed


section \<open>Bootstrap\<close>

text \<open>
  C6: on the bootstrap event, with a debugger present, \<^verbatim>\<open>debug_on_bootstrap\<close>
  returns and has sent, after the requests sent before: for every tab in the
  order of \<^verbatim>\<open>widgets\<close>, and for every line of its \<^verbatim>\<open>breakpoint_lines\<close>, one request
  to create the breakpoint of the tab's file at that line plus one; and after
  all of them, last, the request to run. Nothing else changes.
\<close>

theorem bootstrap_requests:
  assumes "debugger s = Some d"
  shows "debug_on_bootstrap s =
           Inr (s\<lparr>debugger := Some (d\<lparr>sent := sent d @
                  concat (map (\<lambda>t. map (\<lambda>l. Create_breakpoint (path t) (l + 1))
                                      (breakpoint_lines t)) (widgets s)) @
                  [Run]\<rparr>)\<rparr>)"
  using assms
  by (simp add: debug_on_bootstrap_def bootstrap_tabs_sent do_run_def send_def)

theorem bootstrap_requests_witness:
  "debugger starting = Some \<lparr>bp_index = Some [], sent = []\<rparr> \<and>
   debug_on_bootstrap starting =
     Inr (starting\<lparr>debugger := Some \<lparr>bp_index = Some [],
            sent = [Create_breakpoint (Some ''a.py'') 10, Create_breakpoint (Some ''a.py'') 12,
                    Create_breakpoint (Some ''b.py'') 3, Run]\<rparr>\<rparr>)"
proof -
  have h: "debugger starting = Some \<lparr>bp_index = Some [], sent = []\<rparr>"
    by (simp add: starting_def)
  have w: "widgets starting = [tab_a\<lparr>markers := {}, breakpoint_lines := [9, 11]\<rparr>,
                         tab_b\<lparr>breakpoint_lines := [2]\<rparr>]"
    by (simp add: starting_def)
  from bootstrap_requests [OF h] h show ?thesis
    by (simp add: w tab_a_def tab_b_def)
qed

section \<open>Stopping\<close>

text \<open>
  C7, as the spec states it: \<^verbatim>\<open>stop()\<close> without a runner is a no-op that leaves
  the state of controller and UI unchanged. In \<open>nothing_open\<close> there is no runner
  and the editor is in the debugger's mode; this is the state in which
  \<^verbatim>\<open>start\<close> calls \<^verbatim>\<open>stop\<close> when there is no tab. There \<^verbatim>\<open>stop\<close> puts the
  editor back into the mode \<^verbatim>\<open>python\<close>.
\<close>

theorem stop_counterexample:
  "runner nothing_open = None \<and> mode nothing_open = ''debugger'' \<and>
   mode (stop nothing_open) = ''python'' \<and> stop nothing_open \<noteq> nothing_open"
proof -
  have a: "runner nothing_open = None" "mode nothing_open = ''debugger''"
    by (simp_all add: nothing_open_def)
  have b: "mode (stop nothing_open) = ''python''"
    by (simp add: stop_def Let_def split: option.splits)
  from a b have "stop nothing_open \<noteq> nothing_open"
    by auto
  with a b show ?thesis by simp
qed

text \<open>
  C7, amended: \<^verbatim>\<open>stop()\<close> is idempotent, a second call in succession changes
  nothing. Without a runner it touches neither process nor panes and only
  resets the editor to the mode \<^verbatim>\<open>python\<close> and the view to writable; it is a no-op
  when, in addition, the editor is in the mode \<^verbatim>\<open>python\<close> already and the view is
  writable.
\<close>

theorem stop_idempotent:
  "stop (stop s) = stop s \<and>
   (runner s = None \<longrightarrow>
      stop s = s\<lparr>changed_mode := ''python'', mode := ''python'', read_only := False\<rparr>) \<and>
   (runner s = None \<and> changed_mode s = ''python'' \<and> mode s = ''python'' \<and> \<not> read_only s \<longrightarrow>
      stop s = s)"
  by (cases "runner s") (simp_all add: stop_def)

theorem stop_idempotent_witness:
  "runner (stop session) = None \<and> changed_mode (stop session) = ''python'' \<and>
   mode (stop session) = ''python'' \<and> \<not> read_only (stop session) \<and>
   stop (stop session) = stop session \<and> killed (stop session) = [1]"
proof -
  have h: "runner (stop session) = None" "changed_mode (stop session) = ''python''"
    "mode (stop session) = ''python''" "\<not> read_only (stop session)"
    "killed (stop session) = [1]"
    by (simp_all add: stop_def session_def)
  from stop_idempotent [of "stop session"] h show ?thesis
    by simp
qed


section \<open>The end of the process\<close>

text \<open>
  C2, as the spec states it: the event that the process has ended leaves the
  controller idle, with no process handle. In \<open>session\<close> the call of \<^verbatim>\<open>finished\<close>
  returns \<open>session_finished\<close>, in which \<^verbatim>\<open>runner\<close> and \<^verbatim>\<open>debugger\<close> are still
  held, the editor is still in the debugger's mode and the view is still
  read-only.
\<close>

theorem finished_counterexample:
  "runner session = Some 1 \<and>
   finished session 0 0 = Inr session_finished \<and>
   runner session_finished = Some 1 \<and>
   debugger session_finished = Some session_debugger \<and>
   mode session_finished = ''debugger'' \<and> read_only session_finished"
  by (simp add: finished_def actions_def finished_tab_def session_finished_def session_defs
      tab_defs set_add_def breakpoints_def)

text \<open>
  C2, amended: in a state with a runner whose button bar has the buttons of
  the actions, \<^verbatim>\<open>finished\<close> returns; it keeps the runner, the debugger, the
  panes, the mode and the read-only flag, and disables every action but
  \<^verbatim>\<open>stop\<close>, whose button it leaves as it is. The call of \<^verbatim>\<open>stop\<close> that follows
  kills the process and waits for it, drops runner and debugger, removes the
  panes and puts the editor into the mode \<^verbatim>\<open>python\<close>, writable: idle, and no
  process handle is left.
\<close>

theorem finished_then_stop:
  assumes "runner s = Some p"
    and "\<forall>a \<in> set actions. a \<noteq> ''stop'' \<longrightarrow> map_of (slots s) a \<noteq> None"
  shows "\<exists>s'. finished s code status = Inr s' \<and>
           runner s' = Some p \<and> debugger s' = debugger s \<and> killed s' = killed s \<and>
           mode s' = mode s \<and> read_only s' = read_only s \<and>
           python_runner s' = python_runner s \<and> debug_inspector s' = debug_inspector s \<and>
           (\<forall>a \<in> set actions. a \<noteq> ''stop'' \<longrightarrow> map_of (slots s') a = Some False) \<and>
           map_of (slots s') ''stop'' = map_of (slots s) ''stop'' \<and>
           runner (stop s') = None \<and> debugger (stop s') = None \<and>
           killed (stop s') = killed s @ [p] \<and>
           \<not> python_runner (stop s') \<and> \<not> debug_inspector (stop s') \<and>
           mode (stop s') = ''python'' \<and> \<not> read_only (stop s')"
proof -
  from finished_returns [OF assms(2)] obtain sl where
    fin: "finished s code status =
           Inr (s\<lparr>slots := sl, status_message := ''Your script has finished running.'',
                  widgets := map (finished_tab (debugger s)) (widgets s)\<rparr>)"
    and sl: "\<forall>k. map_of sl k =
              (if k \<in> set actions \<and> k \<noteq> ''stop'' then Some False else map_of (slots s) k)"
    by blast
  let ?s' = "s\<lparr>slots := sl, status_message := ''Your script has finished running.'',
                  widgets := map (finished_tab (debugger s)) (widgets s)\<rparr>"
  have a: "runner ?s' = Some p \<and> debugger ?s' = debugger s \<and> killed ?s' = killed s \<and>
           mode ?s' = mode s \<and> read_only ?s' = read_only s \<and>
           python_runner ?s' = python_runner s \<and> debug_inspector ?s' = debug_inspector s"
    using assms(1) by simp
  have b: "(\<forall>a \<in> set actions. a \<noteq> ''stop'' \<longrightarrow> map_of (slots ?s') a = Some False) \<and>
           map_of (slots ?s') ''stop'' = map_of (slots s) ''stop''"
    using sl by simp
  have c: "runner (stop ?s') = None \<and> debugger (stop ?s') = None \<and>
           killed (stop ?s') = killed s @ [p] \<and>
           \<not> python_runner (stop ?s') \<and> \<not> debug_inspector (stop ?s') \<and>
           mode (stop ?s') = ''python'' \<and> \<not> read_only (stop ?s')"
    using assms(1) by (simp add: stop_def)
  from fin a b c show ?thesis
    by blast
qed


theorem finished_then_stop_witness:
  "runner session = Some 1 \<and>
   runner (projr (finished session 0 0)) = Some 1 \<and>
   runner (stop (projr (finished session 0 0))) = None \<and>
   killed (stop (projr (finished session 0 0))) = [1] \<and>
   mode (stop (projr (finished session 0 0))) = ''python''"
proof -
  have h: "runner session = Some 1" "killed session = []"
    by (simp_all add: session_def)
  from finished_then_stop [OF h(1) session_slots, of 0 0] obtain s' where
    "finished session 0 0 = Inr s'" "runner s' = Some 1" "runner (stop s') = None"
    "killed (stop s') = killed session @ [1]" "mode (stop s') = ''python''"
    by blast
  with h show ?thesis
    by simp
qed

text \<open>
  C8: \<^verbatim>\<open>finished\<close> derives the markers of every tab afresh from the breakpoints
  of the debugger. Where the button bar has the buttons of the actions (so that
  the call returns) and the dictionaries have distinct keys, afterwards in
  every tab a marker is shown at the 0-based line \<open>n - 1\<close> exactly when the
  debugger holds an enabled breakpoint for the tab's file under the 1-based
  line \<open>n\<close>; \<^verbatim>\<open>breakpoint_lines\<close> holds the same lines, and the selection is reset
  to \<open>(0, 0, 0, 0)\<close>. The breakpoints themselves are not changed.
\<close>

theorem finished_resyncs_markers:
  assumes "\<forall>a \<in> set actions. a \<noteq> ''stop'' \<longrightarrow> map_of (slots s) a \<noteq> None"
    and "\<forall>t \<in> set (widgets s). \<forall>d bps. debugger s = Some d \<longrightarrow>
           breakpoints d (path t) = Some bps \<longrightarrow> distinct (map fst bps)"
  shows "\<exists>s'. finished s code status = Inr s' \<and> debugger s' = debugger s \<and>
           length (widgets s') = length (widgets s) \<and>
           (\<forall>j < length (widgets s).
              path (widgets s' ! j) = path (widgets s ! j) \<and>
              selection (widgets s' ! j) = (0, 0, 0, 0) \<and>
              set (breakpoint_lines (widgets s' ! j)) = markers (widgets s' ! j) \<and>
              (\<forall>n. (n - 1 \<in> markers (widgets s' ! j)) =
                 (\<exists>bp. store_at s (path (widgets s ! j)) n = Some bp \<and> enabled bp)))"
proof -
  from finished_returns [OF assms(1)] obtain sl where
    fin: "finished s code status =
           Inr (s\<lparr>slots := sl, status_message := ''Your script has finished running.'',
                  widgets := map (finished_tab (debugger s)) (widgets s)\<rparr>)"
    by blast
  let ?s' = "s\<lparr>slots := sl, status_message := ''Your script has finished running.'',
                  widgets := map (finished_tab (debugger s)) (widgets s)\<rparr>"
  have tabs: "path (widgets ?s' ! j) = path (widgets s ! j) \<and>
              selection (widgets ?s' ! j) = (0, 0, 0, 0) \<and>
              set (breakpoint_lines (widgets ?s' ! j)) = markers (widgets ?s' ! j) \<and>
              (\<forall>n. (n - 1 \<in> markers (widgets ?s' ! j)) =
                 (\<exists>bp. store_at s (path (widgets s ! j)) n = Some bp \<and> enabled bp))"
    if j: "j < length (widgets s)" for j
  proof -
    let ?t = "widgets s ! j"
    have nth: "widgets ?s' ! j = finished_tab (debugger s) ?t"
      using j by simp
    have "?t \<in> set (widgets s)"
      using j by simp
    with assms(2) have dist: "\<forall>d bps. debugger s = Some d \<longrightarrow>
        breakpoints d (path ?t) = Some bps \<longrightarrow> distinct (map fst bps)"
      by blast
    have "(n - 1 \<in> markers (finished_tab (debugger s) ?t)) =
        (\<exists>bp. store_at s (path ?t) n = Some bp \<and> enabled bp)" for n
      using finished_tab_markers [OF dist, of "n - 1"]
      by (simp add: store_at_def cong: option.case_cong)
    then show ?thesis
      unfolding nth using finished_tab_frame finished_tab_lines by blast
  qed
  have "debugger ?s' = debugger s" "length (widgets ?s') = length (widgets s)"
    by simp_all
  with fin tabs show ?thesis
    by blast
qed

theorem finished_resyncs_markers_witness:
  "markers (widgets session_pending ! 0) = {4, 9} \<and>
   9 \<in> markers (widgets (projr (finished session_pending 0 0)) ! 0) \<and>
   4 \<notin> markers (widgets (projr (finished session_pending 0 0)) ! 0) \<and>
   11 \<notin> markers (widgets (projr (finished session_pending 0 0)) ! 0) \<and>
   selection (widgets (projr (finished session_pending 0 0)) ! 0) = (0, 0, 0, 0)"
proof -
  have h1: "\<forall>a \<in> set actions. a \<noteq> ''stop'' \<longrightarrow> map_of (slots session_pending) a \<noteq> None"
    by (auto simp: actions_def session_pending_def session_def)
  have h2: "\<forall>t \<in> set (widgets session_pending). \<forall>d bps.
      debugger session_pending = Some d \<longrightarrow>
      breakpoints d (path t) = Some bps \<longrightarrow> distinct (map fst bps)"
    by (auto simp: session_pending_def session_debugger_def breakpoints_def tab_a_def tab_b_def)
  have h3: "length (widgets session_pending) = 2" "path (widgets session_pending ! 0) = Some ''a.py''"
    "markers (widgets session_pending ! 0) = {4, 9}"
    by (simp_all add: session_pending_def tab_a_def)
  have st: "store_at session_pending (Some ''a.py'') 10 = Some bp10"
    "store_at session_pending (Some ''a.py'') 5 = None"
    "store_at session_pending (Some ''a.py'') 12 = Some bp12"
    "enabled bp10" "\<not> enabled bp12"
    by (simp_all add: store_at_def session_pending_def session_debugger_def breakpoints_def
        bp10_def bp12_def)
  from finished_resyncs_markers [OF h1 h2, of 0 0] obtain s' where
    fin: "finished session_pending 0 0 = Inr s'"
    and tabs: "\<forall>j < length (widgets session_pending).
              path (widgets s' ! j) = path (widgets session_pending ! j) \<and>
              selection (widgets s' ! j) = (0, 0, 0, 0) \<and>
              set (breakpoint_lines (widgets s' ! j)) = markers (widgets s' ! j) \<and>
              (\<forall>n. (n - 1 \<in> markers (widgets s' ! j)) =
                 (\<exists>bp. store_at session_pending (path (widgets session_pending ! j)) n = Some bp \<and>
                       enabled bp))"
    by blast
  from tabs h3 have sel: "selection (widgets s' ! 0) = (0, 0, 0, 0)"
    and mk: "\<forall>n. (n - 1 \<in> markers (widgets s' ! 0)) =
                 (\<exists>bp. store_at session_pending (Some ''a.py'') n = Some bp \<and> enabled bp)"
    by auto
  from mk [THEN spec, of 10] mk [THEN spec, of 5] mk [THEN spec, of 12] st
  have "9 \<in> markers (widgets s' ! 0)" "4 \<notin> markers (widgets s' ! 0)"
    "11 \<notin> markers (widgets s' ! 0)"
    by simp_all
  with sel fin h3 show ?thesis
    by simp
qed


end
